theory Spec2Isabelle
  imports Complex_Main "HOL-Library.Word" "HOL-Library.Sublist" "HOL-Library.Multiset"
begin

section \<open>JavaScript values used by the image optimisation code\<close>

text \<open>
  A JavaScript number is a double: a finite value, one of the two infinities, or NaN.
  A finite double is kept as the rational it denotes, and every product, sum and
  quotient the code computes is rounded to the nearest double, ties to even, as IEEE 754
  does (\<open>fl\<close> below).
\<close>

datatype jsnum = Num rat | PosInf | NegInf | NaN

text \<open>The number of binary digits of a positive integer.\<close>

function bitlen :: "int \<Rightarrow> int" where
  "bitlen n = (if 0 < n then 1 + bitlen (n div 2) else 0)"
  by pat_completeness auto
termination
  by (relation "measure nat") auto

declare bitlen.simps [simp del]

text \<open>
  For a positive rational \<open>x\<close>, the integer \<open>k\<close> with \<open>2^k \<le> x < 2^(k+1)\<close>: the
  difference of the lengths of numerator and denominator, or one less.
\<close>

definition floor_log2 :: "rat \<Rightarrow> int" where
  "floor_log2 x =
     (let k = bitlen (fst (quotient_of x)) - bitlen (snd (quotient_of x))
      in if 2 powi k \<le> x then k else k - 1)"

definition round_half_even :: "rat \<Rightarrow> int" where
  "round_half_even x =
     (let f = \<lfloor>x\<rfloor>; d = x - of_int f
      in if d < 1 / 2 then f else if 1 / 2 < d then f + 1 else if even f then f else f + 1)"

text \<open>
  Rounding to double precision: 53 significant bits, the exponent of the last bit no
  smaller than -1074 (subnormal numbers), overflow to an infinity when the rounded
  value reaches \<open>2^1024\<close>.
\<close>

definition fl :: "rat \<Rightarrow> jsnum" where
  "fl x =
     (if x = 0 then Num 0
      else
        (let a = \<bar>x\<bar>;
             e = max (floor_log2 a - 52) (- 1074);
             r = of_int (round_half_even (a / 2 powi e)) * 2 powi e
         in if 1024 \<le> floor_log2 r then (if 0 < x then PosInf else NegInf)
            else Num (if 0 < x then r else - r)))"

text \<open>The value of a decimal literal such as 0.8: the double nearest to it.\<close>

definition lit :: "rat \<Rightarrow> rat" where
  "lit c = (case fl c of Num d \<Rightarrow> d | _ \<Rightarrow> c)"

text \<open>Truthiness of a number, as \<open>x || d\<close> and \<open>!x\<close> read it: 0 and NaN are falsy.\<close>

fun num_truthy :: "jsnum \<Rightarrow> bool" where
  "num_truthy (Num x) = (x \<noteq> 0)"
| "num_truthy PosInf = True"
| "num_truthy NegInf = True"
| "num_truthy NaN = False"

text \<open>\<open>x || d\<close> for a number that may be undefined (\<open>None\<close>).\<close>

fun num_or :: "jsnum option \<Rightarrow> jsnum \<Rightarrow> jsnum" where
  "num_or None d = d"
| "num_or (Some x) d = (if num_truthy x then x else d)"

text \<open>\<open>s || d\<close> for a string that may be undefined: the empty string is falsy.\<close>

fun str_or :: "string option \<Rightarrow> string \<Rightarrow> string" where
  "str_or None d = d"
| "str_or (Some s) d = (if s = [] then d else s)"

text \<open>
  \<open>x *= c\<close> and \<open>x * c\<close> for a positive finite literal \<open>c\<close> (0.5, 0.6, ..., 2),
  written as the decimal it stands for.
\<close>

fun times_lit :: "jsnum \<Rightarrow> rat \<Rightarrow> jsnum" where
  "times_lit (Num x) c = fl (x * lit c)"
| "times_lit PosInf c = PosInf"
| "times_lit NegInf c = NegInf"
| "times_lit NaN c = NaN"



text \<open>
  \<open>Math.round\<close> rounds to the nearest integer, halves towards plus infinity; on a
  double this is exact.
\<close>

definition round_half_up :: "rat \<Rightarrow> int" where
  "round_half_up x = \<lfloor>x + 1 / 2\<rfloor>"

fun math_round :: "jsnum \<Rightarrow> jsnum" where
  "math_round (Num x) = Num (of_int (round_half_up x))"
| "math_round PosInf = PosInf"
| "math_round NegInf = NegInf"
| "math_round NaN = NaN"

text \<open>\<open>Math.min\<close> and \<open>Math.max\<close> of two numbers: NaN if either is NaN.\<close>

fun math_min :: "jsnum \<Rightarrow> jsnum \<Rightarrow> jsnum" where
  "math_min NaN y = NaN"
| "math_min x NaN = NaN"
| "math_min NegInf y = NegInf"
| "math_min x NegInf = NegInf"
| "math_min PosInf y = y"
| "math_min x PosInf = x"
| "math_min (Num x) (Num y) = Num (min x y)"

fun math_max :: "jsnum \<Rightarrow> jsnum \<Rightarrow> jsnum" where
  "math_max NaN y = NaN"
| "math_max x NaN = NaN"
| "math_max PosInf y = PosInf"
| "math_max x PosInf = PosInf"
| "math_max NegInf y = y"
| "math_max x NegInf = x"
| "math_max (Num x) (Num y) = Num (max x y)"

section \<open>The optimizer object (docs/js/image-optimization.js, class ImageOptimizationSystem)\<close>

record format_support =
  avif :: bool
  webp :: bool
  jpg :: bool

record connection_info =
  effectiveType :: string
  downlink :: rat
  rtt :: rat
  saveData :: bool

record viewport_size =
  vp_width :: rat
  vp_height :: rat

record device_capabilities =
  viewport :: viewport_size
  devicePixelRatio :: rat
  deviceType :: string
  connection :: connection_info
  memory :: rat
  cores :: rat
  reducedMotion :: bool
  darkMode :: bool

text \<open>
  The fields of \<open>this\<close> that the selection functions read. \<open>abTestVariant\<close> is null
  (\<open>None\<close>) when A/B testing is disabled, otherwise an object from experiment name to
  variant name. \<open>formatSupport\<close> is set by \<open>detectFormatSupport\<close> during \<open>init\<close>; the
  functions below are those of the initialised object.
\<close>

record optimizer =
  abTestVariant :: "(string \<rightharpoonup> string) option"
  formatSupport :: format_support
  deviceCapabilities :: device_capabilities
  imageProxy :: string

text \<open>\<open>this.abTestVariant?.[name]\<close>\<close>

definition variant_lookup :: "(string \<rightharpoonup> string) option \<Rightarrow> string \<Rightarrow> string option" where
  "variant_lookup av name = (case av of None \<Rightarrow> None | Some m \<Rightarrow> m name)"

subsection \<open>selectOptimalFormat\<close>

definition selectOptimalFormat :: "optimizer \<Rightarrow> string" where
  "selectOptimalFormat this =
     (let variant = str_or (variant_lookup (abTestVariant this) ''format-preference'')
                           ''smart-detection''
      in if variant = ''avif-first'' then
           (if avif (formatSupport this) then ''avif''
            else if webp (formatSupport this) then ''webp'' else ''jpg'')
         else if variant = ''webp-first'' then
           (if webp (formatSupport this) then ''webp'' else ''jpg'')
         else
           (if saveData (connection (deviceCapabilities this)) then ''jpg''
            else if avif (formatSupport this)
                    \<and> effectiveType (connection (deviceCapabilities this)) \<noteq> ''slow-2g''
            then ''avif''
            else if webp (formatSupport this) then ''webp'' else ''jpg''))"

subsection \<open>calculateOptimalQuality\<close>

definition calculateOptimalQuality :: "optimizer \<Rightarrow> jsnum option \<Rightarrow> jsnum" where
  "calculateOptimalQuality this requestedQuality =
     (let variant = str_or (variant_lookup (abTestVariant this) ''compression-strategy'')
                           ''balanced'';
          conn = connection (deviceCapabilities this);
          baseQuality0 = num_or requestedQuality (Num 80);
          baseQuality1 =
            (if variant = ''aggressive'' then times_lit baseQuality0 (4 / 5)
             else if variant = ''quality-focused'' then times_lit baseQuality0 (11 / 10)
             else baseQuality0);
          baseQuality2 =
            (if saveData conn then times_lit baseQuality1 (3 / 5)
             else if effectiveType conn = ''slow-2g'' then times_lit baseQuality1 (7 / 10)
             else if effectiveType conn = ''2g'' then times_lit baseQuality1 (4 / 5)
             else if effectiveType conn = ''3g'' then times_lit baseQuality1 (9 / 10)
             else baseQuality1)
      in math_max (Num 30) (math_min (Num 95) (math_round baseQuality2)))"

text \<open>
  The quality rule in the words of the specification: start from the requested quality,
  80 when none was requested, apply the variant multiplier, then the network multiplier
  (the save-data flag overriding the network class), round and clamp to 30..95.
  A multiplier of 1.0 leaves the value as it is.
\<close>

definition apply_multiplier :: "jsnum \<Rightarrow> rat \<Rightarrow> jsnum" where
  "apply_multiplier q m = (if m = 1 then q else times_lit q m)"

definition variant_multiplier :: "string \<Rightarrow> rat" where
  "variant_multiplier v =
     (if v = ''aggressive'' then 4 / 5 else if v = ''quality-focused'' then 11 / 10 else 1)"

definition network_multiplier :: "string \<Rightarrow> bool \<Rightarrow> rat" where
  "network_multiplier net sd =
     (if sd then 3 / 5
      else if net = ''slow-2g'' then 7 / 10
      else if net = ''2g'' then 4 / 5
      else if net = ''3g'' then 9 / 10
      else 1)"

definition clamp_quality :: "jsnum \<Rightarrow> jsnum" where
  "clamp_quality q = math_max (Num 30) (math_min (Num 95) (math_round q))"

definition spec_selectQuality :: "jsnum option \<Rightarrow> string \<Rightarrow> string \<Rightarrow> bool \<Rightarrow> jsnum" where
  "spec_selectQuality requested v net sd =
     clamp_quality
       (apply_multiplier
          (apply_multiplier (case requested of None \<Rightarrow> Num 80 | Some q \<Rightarrow> q)
                            (variant_multiplier v))
          (network_multiplier net sd))"

text \<open>The requested quality as \<open>requestedQuality || 80\<close> reads it: 0 and NaN count as absent.\<close>

definition effective_request :: "jsnum option \<Rightarrow> jsnum option" where
  "effective_request q =
     (case q of None \<Rightarrow> None | Some x \<Rightarrow> if num_truthy x then Some x else None)"

subsection \<open>detectFormatSupport and detectDeviceCapabilities\<close>












subsection \<open>generateOptimizedUrl and generateSrcSet\<close>

text \<open>
  The optimized URL is kept as the record of its query parameters, in the order the code
  gives them to \<open>URLSearchParams\<close>; the percent-encoding of the text is the platform's.
\<close>

record url_options =
  opt_format :: string
  opt_width :: jsnum
  opt_height :: jsnum
  opt_quality :: jsnum

record optimized_url =
  ou_proxy :: string
  ou_url :: string
  ou_w :: jsnum
  ou_h :: jsnum
  ou_q :: jsnum
  ou_f :: string
  ou_auto :: string
  ou_fit :: string
  ou_dpr :: rat

definition generateOptimizedUrl :: "optimizer \<Rightarrow> string \<Rightarrow> url_options \<Rightarrow> optimized_url" where
  "generateOptimizedUrl this src options =
     \<lparr>ou_proxy = imageProxy this,
      ou_url = src,
      ou_w = opt_width options,
      ou_h = opt_height options,
      ou_q = opt_quality options,
      ou_f = opt_format options,
      ou_auto = ''compress,format'',
      ou_fit = ''crop'',
      ou_dpr = min (devicePixelRatio (deviceCapabilities this)) 2\<rparr>"

record dimensions =
  dim_width :: jsnum
  dim_height :: jsnum
  originalWidth :: jsnum
  originalHeight :: jsnum

text \<open>The multipliers 0.5, 1, 1.5 and 2.\<close>

definition breakpoints :: "rat list" where
  "breakpoints = [1 / 2, 1, 3 / 2, 2]"

text \<open>
  One entry of the result is the pair of the URL and the scaled width that the template
  string \<open>`${url} ${scaledWidth}w`\<close> renders; the entries are joined with a comma.
\<close>

definition generateSrcSet ::
  "optimizer \<Rightarrow> string \<Rightarrow> dimensions \<Rightarrow> string \<Rightarrow> jsnum \<Rightarrow> (optimized_url \<times> jsnum) list" where
  "generateSrcSet this src dims format quality =
     map (\<lambda>multiplier.
            let scaledWidth = math_round (times_lit (dim_width dims) multiplier);
                scaledHeight = math_round (times_lit (dim_height dims) multiplier);
                url = generateOptimizedUrl this src
                        \<lparr>opt_format = format, opt_width = scaledWidth,
                         opt_height = scaledHeight, opt_quality = quality\<rparr>
            in (url, scaledWidth))
         breakpoints"

text \<open>An integer as a number.\<close>

definition int_num :: "int \<Rightarrow> jsnum" where
  "int_num n = Num (of_int n)"

subsection \<open>getABTestVariant\<close>








section \<open>The A/B testing framework (class ImageOptimizationABTesting)\<close>























section \<open>The service worker (src/js/performance-monitor.js, class ImageOptimizationSW)\<close>

subsection \<open>Format support asked from the page\<close>



subsection \<open>Requests, responses and caches\<close>

text \<open>
  A URL is kept parsed. A Request always has one; \<open>response.url\<close> is the empty string
  for a Response built by a script (\<open>None\<close>), and \<open>new URL('')\<close> throws.

  Of the headers of a response the code reads two, both through \<open>parseInt\<close>: the field
  holds the integer read, \<open>None\<close> when the header is missing or does not start with a
  number (NaN).
\<close>

record js_url =
  url_origin :: string
  url_pathname :: string
  url_search :: "(string \<times> string) list"


record response =
  resp_url :: "js_url option"
  resp_status :: nat
  resp_body :: string
  content_length :: "int option"
  sw_cached_at :: "int option"


datatype js_error = TypeError

text \<open>
  A cache is the list of its entries in insertion order, the request URL as key.
  \<open>cache.put\<close> replaces an entry with the same key; \<open>cache.delete\<close> removes it.
\<close>

type_synonym cache = "(js_url \<times> response) list"

definition cache_delete :: "js_url \<Rightarrow> cache \<Rightarrow> cache" where
  "cache_delete k c = filter (\<lambda>e. fst e \<noteq> k) c"

definition cache_put :: "js_url \<Rightarrow> response \<Rightarrow> cache \<Rightarrow> cache" where
  "cache_put k r c = cache_delete k c @ [(k, r)]"


definition cache_keys :: "cache \<Rightarrow> js_url list" where
  "cache_keys c = map fst c"








definition CACHE_EXPIRY_images :: int where
  "CACHE_EXPIRY_images = 7 * 24 * 60 * 60 * 1000"

definition CACHE_EXPIRY_dynamic :: int where
  "CACHE_EXPIRY_dynamic = 2 * 60 * 60 * 1000"

definition IMAGE_FORMATS :: "string list" where
  "IMAGE_FORMATS = [''avif'', ''webp'', ''jpg'', ''jpeg'', ''png'', ''gif'', ''svg'']"


subsection \<open>isImageRequest and isExpired\<close>

definition to_lower :: "char \<Rightarrow> char" where
  "to_lower c =
     (if (65::nat) \<le> of_char c \<and> of_char c \<le> (90::nat) then char_of (of_char c + (32::nat))
      else c)"

text \<open>
  \<open>isImageRequest\<close> is called with a Request, and by \<open>isExpired\<close> with the object
  \<open>{ url: response.url }\<close>, which has no \<open>headers\<close>. The first argument is the parsed
  \<open>url\<close> (\<open>None\<close>: \<open>new URL\<close> throws); the second is \<open>headers\<close> (\<open>None\<close>: the
  property is undefined, and calling \<open>get\<close> on it throws), holding the \<open>accept\<close> header.
\<close>

definition isImageRequest :: "js_url option \<Rightarrow> string option option \<Rightarrow> js_error + bool" where
  "isImageRequest u headers =
     (case u of
        None \<Rightarrow> Inl TypeError
      | Some url \<Rightarrow>
          (let pathname = map to_lower (url_pathname url);
               hasImageExtension =
                 list_ex (\<lambda>format. suffix (''.'' @ format) pathname) IMAGE_FORMATS
           in case headers of
                None \<Rightarrow> Inl TypeError
              | Some accept \<Rightarrow>
                  (let acceptsImages =
                         (case accept of None \<Rightarrow> False | Some a \<Rightarrow> sublist ''image/'' a)
                   in Inr (hasImageExtension \<or> acceptsImages))))"


text \<open>\<open>now\<close> is the value of \<open>Date.now()\<close>.\<close>

definition isExpired :: "int \<Rightarrow> response \<Rightarrow> js_error + bool" where
  "isExpired now resp =
     (case sw_cached_at resp of
        None \<Rightarrow> Inr False
      | Some cachedAt \<Rightarrow>
          if cachedAt = 0 then Inr False
          else (let age = now - cachedAt
                in case isImageRequest (resp_url resp) None of
                     Inl e \<Rightarrow> Inl e
                   | Inr isImage \<Rightarrow>
                       Inr (age > (if isImage then CACHE_EXPIRY_images else CACHE_EXPIRY_dynamic))))"

subsection \<open>manageCacheSize and cacheResponse\<close>











subsection \<open>generateCacheKey and handleImageRequest\<close>







subsection \<open>handleStaticRequest\<close>




subsection \<open>Measures used to state the eviction property\<close>



section \<open>Concrete inputs\<close>

text \<open>
  An optimizer on a desktop viewport with the given variant object, format support,
  network class and save-data flag.
\<close>

definition desktop_optimizer ::
  "(string \<rightharpoonup> string) option \<Rightarrow> format_support \<Rightarrow> string \<Rightarrow> bool \<Rightarrow> optimizer" where
  "desktop_optimizer av support net sd =
     \<lparr>abTestVariant = av,
      formatSupport = support,
      deviceCapabilities =
        \<lparr>viewport = \<lparr>vp_width = 1280, vp_height = 720\<rparr>,
         devicePixelRatio = 1,
         deviceType = ''desktop'',
         connection = \<lparr>effectiveType = net, downlink = 10, rtt = 100, saveData = sd\<rparr>,
         memory = 4, cores = 4, reducedMotion = False, darkMode = False\<rparr>,
      imageProxy = ''https://images.example.com''\<rparr>"












section \<open>Rounding to double precision\<close>

lemma bitlen_pos: "0 < n \<Longrightarrow> 0 < bitlen n \<and> 2 ^ nat (bitlen n - 1) \<le> n \<and> n < 2 ^ nat (bitlen n)"
proof (induction n rule: bitlen.induct)
  case (1 n)
  show ?case
  proof (cases "0 < n div 2")
    case True
    from 1 True have ih: "0 < bitlen (n div 2)" "2 ^ nat (bitlen (n div 2) - 1) \<le> n div 2"
      "n div 2 < 2 ^ nat (bitlen (n div 2))" by simp_all
    have b: "bitlen n = 1 + bitlen (n div 2)" using 1(2) by (subst bitlen.simps) simp
    have e1: "nat (bitlen n - 1) = Suc (nat (bitlen (n div 2) - 1))" using b ih(1) by simp
    have e2: "nat (bitlen n) = Suc (nat (bitlen (n div 2)))" using b ih(1) by simp
    have "2 * 2 ^ nat (bitlen (n div 2) - 1) \<le> n" using ih(2) by linarith
    moreover have "n < 2 * 2 ^ nat (bitlen (n div 2))" using ih(3) by linarith
    ultimately show ?thesis using b ih(1) unfolding e1 e2 by simp
  next
    case False
    with 1(2) have n1: "n = 1" by linarith
    have "bitlen 0 = 0" by (subst bitlen.simps) simp
    then have "bitlen 1 = 1" by (subst bitlen.simps) simp
    with n1 show ?thesis by simp
  qed
qed

lemma quotient_of_pos:
  assumes "0 < x"
  shows "0 < fst (quotient_of x) \<and> 0 < snd (quotient_of x)
     \<and> x = of_int (fst (quotient_of x)) / of_int (snd (quotient_of x))"
proof -
  obtain p q where pq: "quotient_of x = (p, q)" by (cases "quotient_of x")
  then have q: "0 < q" by (rule quotient_of_denom_pos)
  from pq have x: "x = of_int p / of_int q" by (rule quotient_of_div)
  with assms q have "0 < p" by (simp add: zero_less_divide_iff)
  with q x pq show ?thesis by simp
qed

lemma floor_log2_le:
  assumes "0 < x"
  shows "2 powi (floor_log2 x) \<le> x"
proof -
  let ?p = "fst (quotient_of x)" and ?q = "snd (quotient_of x)"
  let ?k = "bitlen ?p - bitlen ?q"
  from quotient_of_pos[OF assms] have p: "0 < ?p" and q: "0 < ?q" and x: "x = of_int ?p / of_int ?q"
    by simp_all
  from bitlen_pos[OF p] have bp: "0 < bitlen ?p" "2 ^ nat (bitlen ?p - 1) \<le> ?p" by simp_all
  from bitlen_pos[OF q] have bq: "0 < bitlen ?q" "?q < 2 ^ nat (bitlen ?q)" by simp_all
  have lo: "(2::rat) powi (bitlen ?p - 1) \<le> of_int ?p"
  proof -
    have "(2::rat) powi (bitlen ?p - 1) = 2 ^ nat (bitlen ?p - 1)"
      using bp(1) by (simp add: power_int_nonneg_exp)
    also have "\<dots> = of_int (2 ^ nat (bitlen ?p - 1))" by simp
    also have "\<dots> \<le> of_int ?p" using bp(2) by (simp only: of_int_le_iff)
    finally show ?thesis .
  qed
  have hi: "of_int ?q \<le> (2::rat) powi (bitlen ?q)"
  proof -
    have "(of_int ?q :: rat) \<le> of_int (2 ^ nat (bitlen ?q))" using bq(2) by (simp only: of_int_le_iff)
    also have "\<dots> = 2 powi (bitlen ?q)" using bq(1) by (simp add: power_int_nonneg_exp)
    finally show ?thesis .
  qed
  have "(2::rat) powi (?k - 1) = 2 powi (bitlen ?p - 1) / 2 powi (bitlen ?q)"
    by (simp add: power_int_diff)
  also have "\<dots> \<le> of_int ?p / 2 powi (bitlen ?q)"
    using lo by (simp add: divide_right_mono)
  also have "\<dots> \<le> of_int ?p / of_int ?q"
    using hi p q by (simp add: frac_le)
  finally have k1: "(2::rat) powi (?k - 1) \<le> x" using x by simp
  show ?thesis unfolding floor_log2_def Let_def using k1 by simp
qed

lemma floor_log2_less:
  assumes "0 < x" and "x < 2 powi j"
  shows "floor_log2 x < j"
proof (rule ccontr)
  assume "\<not> floor_log2 x < j"
  then have "j \<le> floor_log2 x" by simp
  then have "(2::rat) powi j \<le> 2 powi (floor_log2 x)" by (simp add: power_int_increasing)
  with floor_log2_le[OF assms(1)] assms(2) show False by simp
qed

lemma round_half_even_of_int: "round_half_even (of_int n) = n"
  by (simp add: round_half_even_def)


lemma fl_not_NaN: "fl x \<noteq> NaN"
  by (simp add: fl_def Let_def)

lemma fl_half_integer:
  assumes "0 < n" and "n < 2 ^ 53"
  shows "fl (of_int n / 2) = Num (of_int n / 2)"
proof -
  define a :: rat where "a = of_int n / 2"
  define e where "e = max (floor_log2 a - 52) (- 1074)"
  define k where "k = nat (- e - 1)"
  have pos: "0 < a" using assms(1) by (simp add: a_def)
  have "(of_int n :: rat) < of_int (2 ^ 53)" using assms(2) by (simp only: of_int_less_iff)
  then have a52: "a < 2 ^ 52" by (simp add: a_def)
  then have "a < 2 powi 52" by simp
  from floor_log2_less[OF pos this] have e: "e \<le> - 1" by (simp add: e_def)
  then have ek: "e = - (1 + int k)" by (simp add: k_def)
  have "(2::rat) powi (1 + int k) = 2 * 2 ^ k" by (simp add: power_int_add)
  then have p: "(2::rat) powi e = 1 / (2 * 2 ^ k)"
    unfolding ek by (simp only: power_int_minus_divide)
  have q: "a / 2 powi e = of_int (n * 2 ^ k)" unfolding p by (simp add: a_def)
  have r: "of_int (round_half_even (a / 2 powi e)) * 2 powi e = a"
    unfolding q round_half_even_of_int unfolding p by (simp add: a_def)
  from floor_log2_less[OF pos \<open>a < 2 powi 52\<close>] have big: "\<not> 1024 \<le> floor_log2 a" by simp
  have "fl a = Num a"
    using pos r[unfolded e_def] big unfolding fl_def Let_def by (simp add: abs_of_pos)
  then show ?thesis by (simp add: a_def)
qed


lemma lit_values:
  "lit (1 / 2) = 1 / 2" "lit 1 = 1" "lit (3 / 2) = 3 / 2" "lit 2 = 2"
  using fl_half_integer[of 1] fl_half_integer[of 2] fl_half_integer[of 3] fl_half_integer[of 4]
  by (simp_all add: lit_def)

section \<open>Format selection\<close>

text \<open>
  Claim C1, as the code has it. With the save-data flag set, \<open>selectOptimalFormat\<close>
  returns jpg whenever the format-preference variant is neither avif-first nor
  webp-first (smart-detection, unassigned, or any other value). The flag is read only in
  that branch of the switch.
\<close>

theorem selectOptimalFormat_saveData:
  assumes "saveData (connection (deviceCapabilities this))"
    and "variant_lookup (abTestVariant this) ''format-preference''
           \<notin> {Some ''avif-first'', Some ''webp-first''}"
  shows "selectOptimalFormat this = ''jpg''"
  using assms
  by (cases "variant_lookup (abTestVariant this) ''format-preference''")
     (auto simp: selectOptimalFormat_def Let_def)

theorem selectOptimalFormat_saveData_witness:
  "saveData (connection (deviceCapabilities
       (desktop_optimizer (Some [''format-preference'' \<mapsto> ''smart-detection''])
          \<lparr>avif = True, webp = True, jpg = True\<rparr> ''4g'' True)))
   \<and> selectOptimalFormat
       (desktop_optimizer (Some [''format-preference'' \<mapsto> ''smart-detection''])
          \<lparr>avif = True, webp = True, jpg = True\<rparr> ''4g'' True) = ''jpg''"
  using selectOptimalFormat_saveData
    [of "desktop_optimizer (Some [''format-preference'' \<mapsto> ''smart-detection''])
           \<lparr>avif = True, webp = True, jpg = True\<rparr> ''4g'' True"]
  by (simp add: desktop_optimizer_def variant_lookup_def)

text \<open>
  Under avif-first the save-data flag does not matter: with avif supported and the flag
  set the result is avif, not jpg.
\<close>

theorem selectOptimalFormat_saveData_avif_first:
  "saveData (connection (deviceCapabilities
       (desktop_optimizer (Some [''format-preference'' \<mapsto> ''avif-first''])
          \<lparr>avif = True, webp = True, jpg = True\<rparr> ''4g'' True)))
   \<and> selectOptimalFormat
       (desktop_optimizer (Some [''format-preference'' \<mapsto> ''avif-first''])
          \<lparr>avif = True, webp = True, jpg = True\<rparr> ''4g'' True) = ''avif''
   \<and> selectOptimalFormat
       (desktop_optimizer (Some [''format-preference'' \<mapsto> ''avif-first''])
          \<lparr>avif = True, webp = True, jpg = True\<rparr> ''4g'' True) \<noteq> ''jpg''"
  by (simp add: desktop_optimizer_def selectOptimalFormat_def variant_lookup_def)

text \<open>
  Claim C7. Under smart-detection, or with no variant assigned, and the save-data flag
  off, the result is avif exactly when avif is supported and the network class is not
  slow-2g; otherwise webp when supported, else jpg. With both formats supported this
  gives avif on 4g and webp on slow-2g.
\<close>

theorem selectOptimalFormat_smart_detection:
  assumes "\<not> saveData (connection (deviceCapabilities this))"
    and "variant_lookup (abTestVariant this) ''format-preference''
           \<in> {None, Some ''smart-detection''}"
  shows "selectOptimalFormat this =
           (if avif (formatSupport this)
               \<and> effectiveType (connection (deviceCapabilities this)) \<noteq> ''slow-2g''
            then ''avif''
            else if webp (formatSupport this) then ''webp'' else ''jpg'')
         \<and> (selectOptimalFormat this = ''avif'') =
             (avif (formatSupport this)
              \<and> effectiveType (connection (deviceCapabilities this)) \<noteq> ''slow-2g'')"
  using assms by (auto simp: selectOptimalFormat_def Let_def)

theorem selectOptimalFormat_smart_detection_witness:
  "selectOptimalFormat
       (desktop_optimizer (Some [''format-preference'' \<mapsto> ''smart-detection''])
          \<lparr>avif = True, webp = True, jpg = True\<rparr> ''4g'' False) = ''avif''
   \<and> selectOptimalFormat
       (desktop_optimizer (Some [''format-preference'' \<mapsto> ''smart-detection''])
          \<lparr>avif = True, webp = True, jpg = True\<rparr> ''slow-2g'' False) = ''webp''
   \<and> selectOptimalFormat
       (desktop_optimizer None \<lparr>avif = False, webp = False, jpg = True\<rparr> ''4g'' False) = ''jpg''"
  using selectOptimalFormat_smart_detection
    [of "desktop_optimizer (Some [''format-preference'' \<mapsto> ''smart-detection''])
           \<lparr>avif = True, webp = True, jpg = True\<rparr> ''4g'' False"]
    selectOptimalFormat_smart_detection
    [of "desktop_optimizer (Some [''format-preference'' \<mapsto> ''smart-detection''])
           \<lparr>avif = True, webp = True, jpg = True\<rparr> ''slow-2g'' False"]
    selectOptimalFormat_smart_detection
    [of "desktop_optimizer None \<lparr>avif = False, webp = False, jpg = True\<rparr> ''4g'' False"]
  by (simp add: desktop_optimizer_def variant_lookup_def)

section \<open>Quality\<close>

lemma clamp_range:
  assumes "b \<noteq> NaN"
  shows "\<exists>n::int. math_max (Num 30) (math_min (Num 95) (math_round b)) = Num (of_int n)
           \<and> 30 \<le> n \<and> n \<le> 95"
proof (cases b)
  case (Num x)
  let ?r = "round_half_up x"
  have "math_max (Num 30) (math_min (Num 95) (math_round b))
          = Num (of_int (max 30 (min 95 ?r)))"
    using Num by (simp add: min_def max_def)
  then show ?thesis by (intro exI[of _ "max 30 (min 95 ?r)"]) simp
next
  case PosInf
  then show ?thesis by (intro exI[of _ 95]) simp
next
  case NegInf
  then show ?thesis by (intro exI[of _ 30]) simp
next
  case NaN
  with assms show ?thesis by simp
qed

lemma times_lit_NaN: "times_lit b c = NaN \<longleftrightarrow> b = NaN"
  by (cases b) (simp_all add: fl_not_NaN)

lemma num_or_not_NaN:
  assumes "d \<noteq> NaN"
  shows "num_or q d \<noteq> NaN"
proof (cases q)
  case None
  with assms show ?thesis by simp
next
  case (Some x)
  with assms show ?thesis by (cases x) simp_all
qed

text \<open>
  Claim C3. For every requested quality (a finite number, an infinity, NaN, or
  undefined), every variant object and every connection, \<open>calculateOptimalQuality\<close>
  returns an integer between 30 and 95.
\<close>

theorem calculateOptimalQuality_range:
  "\<exists>n::int. calculateOptimalQuality this q = Num (of_int n) \<and> 30 \<le> n \<and> n \<le> 95"
  unfolding calculateOptimalQuality_def Let_def
  by (rule clamp_range) (simp add: times_lit_NaN num_or_not_NaN)

lemma num_or_effective:
  "num_or q (Num 80) = (case effective_request q of None \<Rightarrow> Num 80 | Some x \<Rightarrow> x)"
  by (cases q) (simp_all add: effective_request_def)

text \<open>
  Claim C6, as the code has it. The result is the specification's rule applied to the
  requested quality as \<open>requestedQuality || 80\<close> reads it: the default 80 is taken when
  the quality is absent and also when it is 0 or NaN. For a requested quality of 80,
  variant aggressive, network 3g and no save-data the result is 58.
\<close>

theorem calculateOptimalQuality_rule:
  "calculateOptimalQuality this q =
     spec_selectQuality (effective_request q)
        (str_or (variant_lookup (abTestVariant this) ''compression-strategy'') ''balanced'')
        (effectiveType (connection (deviceCapabilities this)))
        (saveData (connection (deviceCapabilities this)))
   \<and> calculateOptimalQuality
        (desktop_optimizer (Some [''compression-strategy'' \<mapsto> ''aggressive''])
           \<lparr>avif = True, webp = True, jpg = True\<rparr> ''3g'' False)
        (Some (Num 80)) = Num 58"
proof
  show "calculateOptimalQuality this q =
     spec_selectQuality (effective_request q)
        (str_or (variant_lookup (abTestVariant this) ''compression-strategy'') ''balanced'')
        (effectiveType (connection (deviceCapabilities this)))
        (saveData (connection (deviceCapabilities this)))"
    by (simp add: calculateOptimalQuality_def spec_selectQuality_def clamp_quality_def Let_def
        variant_multiplier_def network_multiplier_def apply_multiplier_def num_or_effective)
  show "calculateOptimalQuality
        (desktop_optimizer (Some [''compression-strategy'' \<mapsto> ''aggressive''])
           \<lparr>avif = True, webp = True, jpg = True\<rparr> ''3g'' False)
        (Some (Num 80)) = Num 58"
    by code_simp
qed

text \<open>
  A requested quality of 0 is not absent, yet the code starts from 80: with the balanced
  variant on 4g it returns 80, where the rule started from the requested quality gives
  the lower clamp 30.
\<close>

theorem calculateOptimalQuality_zero_request:
  "calculateOptimalQuality
      (desktop_optimizer None \<lparr>avif = True, webp = True, jpg = True\<rparr> ''4g'' False)
      (Some (Num 0)) = Num 80
   \<and> spec_selectQuality (Some (Num 0)) ''balanced'' ''4g'' False = Num 30"
  by code_simp

section \<open>Responsive widths\<close>

lemma round_half_up_of_int: "round_half_up (of_int w) = w"
  unfolding round_half_up_def by (rule floor_unique) simp_all

lemma round_half_up_double: "round_half_up (of_int w * 2) = 2 * w"
proof -
  have "round_half_up (of_int w * 2) = round_half_up (of_int (2 * w))"
    by (simp add: mult.commute)
  then show ?thesis by (simp only: round_half_up_of_int)
qed

lemma round_half_up_half: "round_half_up (of_int w * (1 / 2)) = (w + 1) div 2"
  unfolding round_half_up_def
proof -
  have "(of_int w * (1 / 2) + 1 / 2 :: rat) = of_int (w + 1) / of_int 2"
    by (simp add: field_simps)
  then show "\<lfloor>of_int w * (1 / 2) + 1 / 2 :: rat\<rfloor> = (w + 1) div 2"
    by (simp only: floor_divide_of_int_eq)
qed

lemma round_half_up_three_halves: "round_half_up (of_int w * (3 / 2)) = (3 * w + 1) div 2"
  unfolding round_half_up_def
proof -
  have "(of_int w * (3 / 2) + 1 / 2 :: rat) = of_int (3 * w + 1) / of_int 2"
    by (simp add: field_simps)
  then show "\<lfloor>of_int w * (3 / 2) + 1 / 2 :: rat\<rfloor> = (3 * w + 1) div 2"
    by (simp only: floor_divide_of_int_eq)
qed

text \<open>For an integer width below \<open>2^51\<close> the four products are exact.\<close>

lemma times_lit_breakpoint:
  assumes "0 < w" and "w < 2 ^ 51" and "m \<in> set breakpoints"
  shows "times_lit (Num (of_int w)) m = Num (of_int w * m)"
proof -
  have exact: "fl (of_int n / 2) = Num (of_int n / 2)" if "n \<in> {w, 2 * w, 3 * w, 4 * w}" for n
    using that assms(1,2) by (intro fl_half_integer) auto
  have a: "(of_int w * (1 / 2) :: rat) = of_int w / 2" by simp
  have b: "(of_int w * 1 :: rat) = of_int (2 * w) / 2" by simp
  have c: "(of_int w * (3 / 2) :: rat) = of_int (3 * w) / 2" by simp
  have d: "(of_int w * 2 :: rat) = of_int (4 * w) / 2" by simp
  from assms(3) consider "m = 1 / 2" | "m = 1" | "m = 3 / 2" | "m = 2"
    by (auto simp: breakpoints_def)
  then show ?thesis
  proof cases
    case 1
    show ?thesis unfolding 1 times_lit.simps lit_values a by (rule exact) simp
  next
    case 2
    show ?thesis unfolding 2 times_lit.simps lit_values b by (rule exact) simp
  next
    case 3
    show ?thesis unfolding 3 times_lit.simps lit_values c by (rule exact) simp
  next
    case 4
    show ?thesis unfolding 4 times_lit.simps lit_values d by (rule exact) simp
  qed
qed

lemma generateSrcSet_snd:
  assumes "dim_width dims = int_num w" and "0 < w" and "w < 2 ^ 51"
  shows "map snd (generateSrcSet this src dims format quality)
           = map (\<lambda>m. int_num (round_half_up (of_int w * m))) breakpoints"
proof -
  have "map snd (generateSrcSet this src dims format quality)
          = map (\<lambda>m. math_round (times_lit (int_num w) m)) breakpoints"
    using assms(1) by (simp add: generateSrcSet_def Let_def comp_def)
  also have "\<dots> = map (\<lambda>m. int_num (round_half_up (of_int w * m))) breakpoints"
    by (rule map_cong[OF refl])
       (simp add: times_lit_breakpoint[OF assms(2,3)] int_num_def del: times_lit.simps)
  finally show ?thesis .
qed

text \<open>
  Claim C5, as the code has it. For an integer base width from 2 up to \<open>2^51\<close> (where
  the products are exact in double arithmetic), \<open>generateSrcSet\<close> gives exactly four
  entries, their widths the base width times 0.5, 1, 1.5 and 2, each rounded, in
  strictly ascending order.
\<close>

theorem generateSrcSet_widths:
  assumes "dim_width dims = int_num w" and "2 \<le> w" and "w < 2 ^ 51"
  shows "length (generateSrcSet this src dims format quality) = 4
    \<and> map snd (generateSrcSet this src dims format quality)
       = map int_num
           [round_half_up (of_int w * (1 / 2)), round_half_up (of_int w * 1),
            round_half_up (of_int w * (3 / 2)), round_half_up (of_int w * 2)]
    \<and> sorted_wrt (<)
           [round_half_up (of_int w * (1 / 2)), round_half_up (of_int w * 1),
            round_half_up (of_int w * (3 / 2)), round_half_up (of_int w * 2)]"
proof -
  from assms(2) have pos: "0 < w" by simp
  have m: "map snd (generateSrcSet this src dims format quality)
       = map int_num
           [round_half_up (of_int w * (1 / 2)), round_half_up (of_int w * 1),
            round_half_up (of_int w * (3 / 2)), round_half_up (of_int w * 2)]"
    unfolding generateSrcSet_snd[OF assms(1) pos assms(3)] by (simp add: breakpoints_def)
  have l: "length (generateSrcSet this src dims format quality) = 4"
    by (simp add: generateSrcSet_def breakpoints_def)
  have e: "[round_half_up (of_int w * (1 / 2)), round_half_up (of_int w * 1),
            round_half_up (of_int w * (3 / 2)), round_half_up (of_int w * 2)]
     = [(w + 1) div 2, w, (3 * w + 1) div 2, 2 * w]"
    by (simp only: round_half_up_half round_half_up_three_halves round_half_up_double
        round_half_up_of_int mult_1_right)
  have "sorted_wrt (<) [(w + 1) div 2, w, (3 * w + 1) div 2, 2 * w]"
    using assms(2) by simp linarith
  with e have "sorted_wrt (<)
      [round_half_up (of_int w * (1 / 2)), round_half_up (of_int w * 1),
       round_half_up (of_int w * (3 / 2)), round_half_up (of_int w * 2)]"
    by (simp only:)
  with m l show ?thesis by (simp only:)
qed

theorem generateSrcSet_widths_witness:
  "map snd (generateSrcSet
       (desktop_optimizer None \<lparr>avif = True, webp = True, jpg = True\<rparr> ''4g'' False)
       ''hero.jpg''
       \<lparr>dim_width = int_num 800, dim_height = int_num 600,
        originalWidth = int_num 800, originalHeight = int_num 600\<rparr>
       ''avif'' (Num 80))
     = [int_num 400, int_num 800, int_num 1200, int_num 1600]"
  using generateSrcSet_widths
    [of "\<lparr>dim_width = int_num 800, dim_height = int_num 600,
          originalWidth = int_num 800, originalHeight = int_num 600\<rparr>"
        800
        "desktop_optimizer None \<lparr>avif = True, webp = True, jpg = True\<rparr> ''4g'' False"
        "''hero.jpg''" "''avif''" "Num 80"]
  by (simp add: round_half_up_def floor_unique int_num_def)

text \<open>
  At base width 1 the rounded widths are 1, 1, 2, 2: 0.5 rounds up to 1 and 1.5 rounds
  up to 2, so the order is not strict.
\<close>

theorem generateSrcSet_width_one:
  "map snd (generateSrcSet
       (desktop_optimizer None \<lparr>avif = True, webp = True, jpg = True\<rparr> ''4g'' False)
       ''icon.png''
       \<lparr>dim_width = int_num 1, dim_height = int_num 1,
        originalWidth = int_num 1, originalHeight = int_num 1\<rparr>
       ''avif'' (Num 80))
     = [int_num 1, int_num 1, int_num 2, int_num 2]
   \<and> \<not> distinct (map snd (generateSrcSet
       (desktop_optimizer None \<lparr>avif = True, webp = True, jpg = True\<rparr> ''4g'' False)
       ''icon.png''
       \<lparr>dim_width = int_num 1, dim_height = int_num 1,
        originalWidth = int_num 1, originalHeight = int_num 1\<rparr>
       ''avif'' (Num 80)))"
proof -
  have "map snd (generateSrcSet
       (desktop_optimizer None \<lparr>avif = True, webp = True, jpg = True\<rparr> ''4g'' False)
       ''icon.png''
       \<lparr>dim_width = int_num 1, dim_height = int_num 1,
        originalWidth = int_num 1, originalHeight = int_num 1\<rparr>
       ''avif'' (Num 80))
     = [int_num 1, int_num 1, int_num 2, int_num 2]"
    by (subst generateSrcSet_snd[of _ 1])
       (simp_all add: breakpoints_def round_half_up_def floor_unique int_num_def)
  then show ?thesis by simp
qed

section \<open>Capability detection\<close>



section \<open>Experiment assignment\<close>






















section \<open>Cache eviction\<close>






lemma cache_put_distinct:
  assumes "distinct (cache_keys c)"
  shows "distinct (cache_keys (cache_put k r c))"
  using assms by (auto simp: cache_keys_def cache_put_def cache_delete_def distinct_map_filter)



section \<open>Expiry\<close>







text \<open>
  For a response with a non-zero stamp the age branch is reached; there \<open>isExpired\<close>
  calls \<open>isImageRequest\<close> with an object that has no \<open>headers\<close>, which throws.
\<close>

lemma isExpired_stamped:
  assumes "sw_cached_at r = Some t" and "t \<noteq> 0"
  shows "isExpired now r = Inl TypeError"
  using assms by (simp add: isExpired_def isImageRequest_def Let_def split: option.splits)


end
